theory Spec2Isabelle
  imports Main "HOL-Library.Word" "HOL-Library.Monad_Syntax"
begin

unbundle bit_operations_syntax

section \<open>Machine integers and bit operations of \<open>xoshiro.hpp\<close>\<close>

text \<open>
  \<open>std::uint64_t\<close> and \<open>std::uint32_t\<close> are words of 64 and 32 bits: \<open>+\<close> and \<open>*\<close>
  wrap around. A byte (\<open>char\<close>) is a word of 8 bits.
\<close>

type_synonym u64 = "64 word"
type_synonym u32 = "32 word"
type_synonym byte = "8 word"

text \<open>
  The shift operators of C++ are defined only for a count \<open>0 \<le> n < width\<close> of the
  (promoted) left operand; every other count is undefined behaviour, modelled here as
  \<open>None\<close>. The count is an \<open>int\<close> in the source (\<open>const int k\<close>).
\<close>

definition shl64 :: "u64 \<Rightarrow> int \<Rightarrow> u64 option" where
  "shl64 x n = (if 0 \<le> n \<and> n < 64 then Some (push_bit (nat n) x) else None)"

definition shr64 :: "u64 \<Rightarrow> int \<Rightarrow> u64 option" where
  "shr64 x n = (if 0 \<le> n \<and> n < 64 then Some (drop_bit (nat n) x) else None)"

definition shl32 :: "u32 \<Rightarrow> int \<Rightarrow> u32 option" where
  "shl32 x n = (if 0 \<le> n \<and> n < 32 then Some (push_bit (nat n) x) else None)"

definition shr32 :: "u32 \<Rightarrow> int \<Rightarrow> u32 option" where
  "shr32 x n = (if 0 \<le> n \<and> n < 32 then Some (drop_bit (nat n) x) else None)"

text \<open>\<^verbatim>\<open>return (x << k) | (x >> (64 - k));\<close>\<close>

definition rotl64 :: "u64 \<Rightarrow> int \<Rightarrow> u64 option" where
  "rotl64 x k = do {
     a \<leftarrow> shl64 x k;
     b \<leftarrow> shr64 x (64 - k);
     Some (a OR b)
   }"

text \<open>\<^verbatim>\<open>return (x << k) | (x >> (32 - k));\<close>\<close>

definition rotl32 :: "u32 \<Rightarrow> int \<Rightarrow> u32 option" where
  "rotl32 x k = do {
     a \<leftarrow> shl32 x k;
     b \<leftarrow> shr32 x (32 - k);
     Some (a OR b)
   }"

text \<open>
  The language gives no value to a shift whose count is not in \<open>0 \<le> n < width\<close>, but
  the shift that the compiled code executes returns one. Processors and compilers do one
  of two things with such a count: they use the count modulo the width (\<open>Masked\<close>: the
  shift instructions of x86-64 and AArch64), or they shift every bit out and give 0
  (\<open>Zeroed\<close>; a negative count read as unsigned is at least the width). Which of the two
  is a parameter. For a count inside the range both give what the language says.
\<close>

datatype out_of_range = Masked | Zeroed

definition shl64_compiled :: "out_of_range \<Rightarrow> u64 \<Rightarrow> int \<Rightarrow> u64" where
  "shl64_compiled m x n =
     (if 0 \<le> n \<and> n < 64 then push_bit (nat n) x
      else case m of Masked \<Rightarrow> push_bit (nat (n mod 64)) x | Zeroed \<Rightarrow> 0)"

definition shr64_compiled :: "out_of_range \<Rightarrow> u64 \<Rightarrow> int \<Rightarrow> u64" where
  "shr64_compiled m x n =
     (if 0 \<le> n \<and> n < 64 then drop_bit (nat n) x
      else case m of Masked \<Rightarrow> drop_bit (nat (n mod 64)) x | Zeroed \<Rightarrow> 0)"

definition shl32_compiled :: "out_of_range \<Rightarrow> u32 \<Rightarrow> int \<Rightarrow> u32" where
  "shl32_compiled m x n =
     (if 0 \<le> n \<and> n < 32 then push_bit (nat n) x
      else case m of Masked \<Rightarrow> push_bit (nat (n mod 32)) x | Zeroed \<Rightarrow> 0)"

definition shr32_compiled :: "out_of_range \<Rightarrow> u32 \<Rightarrow> int \<Rightarrow> u32" where
  "shr32_compiled m x n =
     (if 0 \<le> n \<and> n < 32 then drop_bit (nat n) x
      else case m of Masked \<Rightarrow> drop_bit (nat (n mod 32)) x | Zeroed \<Rightarrow> 0)"

text \<open>
  \<open>rotl64\<close> and \<open>rotl32\<close> as they run: the same expressions,
  \<^verbatim>\<open>(x << k) | (x >> (64 - k))\<close> and \<^verbatim>\<open>(x << k) | (x >> (32 - k))\<close>, over the
  compiled shifts.
\<close>

definition rotl64_compiled :: "out_of_range \<Rightarrow> u64 \<Rightarrow> int \<Rightarrow> u64" where
  "rotl64_compiled m x k = shl64_compiled m x k OR shr64_compiled m x (64 - k)"

definition rotl32_compiled :: "out_of_range \<Rightarrow> u32 \<Rightarrow> int \<Rightarrow> u32" where
  "rotl32_compiled m x k = shl32_compiled m x k OR shr32_compiled m x (32 - k)"

section \<open>The seed expander \<open>splitmix64\<close>\<close>

text \<open>
  \<^verbatim>\<open>
  std::uint64_t z = (seed + 0x9e3779b97f4a7c15);
  z = (z ^ (z >> 30)) * 0xbf58476d1ce4e5b9;
  z = (z ^ (z >> 27)) * 0x94d049bb133111eb;
  return z ^ (z >> 31);
  \<close>
  The three shift counts are constants below 64, so the shifts are always defined.
\<close>

definition splitmix64 :: "u64 \<Rightarrow> u64" where
  "splitmix64 seed =
     (let z = seed + 0x9e3779b97f4a7c15;
          z = (z XOR drop_bit 30 z) * 0xbf58476d1ce4e5b9;
          z = (z XOR drop_bit 27 z) * 0x94d049bb133111eb
      in z XOR drop_bit 31 z)"

section \<open>Byte order and object representation\<close>

text \<open>
  The helpers that split a 64-bit word, the comparison operators and the stream operators
  all go through the bytes of an object (\<open>std::memcpy\<close>, \<open>std::memcmp\<close>,
  \<open>reinterpret_cast<char*>\<close>). The order of those bytes is the host's, a parameter of
  the model.
\<close>

datatype endian = Little | Big

text \<open>The \<open>n\<close> low bytes of a word, least significant first, and the way back.\<close>

fun le_bytes :: "nat \<Rightarrow> 'a::len word \<Rightarrow> byte list" where
  "le_bytes 0 w = []"
| "le_bytes (Suc n) w = ucast w # le_bytes n (drop_bit 8 w)"

fun le_word :: "byte list \<Rightarrow> 'a::len word" where
  "le_word [] = 0"
| "le_word (b # bs) = ucast b OR push_bit 8 (le_word bs)"

text \<open>
  \<open>bytes_of e n w\<close> is the object representation of an unsigned integer of \<open>n\<close> bytes, in
  address order; \<open>word_of e bs\<close> is the value of the object that holds the bytes \<open>bs\<close>.
\<close>

definition bytes_of :: "endian \<Rightarrow> nat \<Rightarrow> 'a::len word \<Rightarrow> byte list" where
  "bytes_of e n w = (case e of Little \<Rightarrow> le_bytes n w | Big \<Rightarrow> rev (le_bytes n w))"

definition word_of :: "endian \<Rightarrow> byte list \<Rightarrow> 'a::len word" where
  "word_of e bs = (case e of Little \<Rightarrow> le_word bs | Big \<Rightarrow> le_word (rev bs))"

text \<open>
  \<^verbatim>\<open>std::memcpy(&out, reinterpret_cast<const std::uint32_t*>(&x), sizeof(std::uint32_t));\<close>
  copies the first four bytes of \<open>x\<close>;
  \<^verbatim>\<open>std::memcpy(&out, reinterpret_cast<const std::uint32_t*>(&x) + 1, sizeof(std::uint32_t));\<close>
  the last four.
\<close>

definition extract_32bits_from64_left :: "endian \<Rightarrow> u64 \<Rightarrow> u32" where
  "extract_32bits_from64_left e x = word_of e (take 4 (bytes_of e 8 x))"

definition extract_32bits_from64_right :: "endian \<Rightarrow> u64 \<Rightarrow> u32" where
  "extract_32bits_from64_right e x = word_of e (take 4 (drop 4 (bytes_of e 8 x)))"

text \<open>
  \<open>assign_32bits_to64_left\<close> and \<open>assign_32bits_to64_right\<close> take \<open>assign_to\<close> by value
  and return \<open>void\<close>: the \<open>memcpy\<close> overwrites four bytes of the parameter, a copy local
  to the call. The functions below give the value that copy holds when the call returns;
  nothing of it reaches the caller.
\<close>

definition assign_32bits_to64_left :: "endian \<Rightarrow> u64 \<Rightarrow> u32 \<Rightarrow> u64" where
  "assign_32bits_to64_left e assign_to take_from =
     word_of e (bytes_of e 4 take_from @ drop 4 (bytes_of e 8 assign_to))"

definition assign_32bits_to64_right :: "endian \<Rightarrow> u64 \<Rightarrow> u32 \<Rightarrow> u64" where
  "assign_32bits_to64_right e assign_to take_from =
     word_of e (take 4 (bytes_of e 8 assign_to) @ bytes_of e 4 take_from)"

text \<open>
  \<open>std::memcmp\<close> on two buffers of the same length: the sign of the difference of the
  first pair of bytes that differ, compared as \<open>unsigned char\<close>; 0 when there is none.
\<close>

fun memcmp :: "byte list \<Rightarrow> byte list \<Rightarrow> int" where
  "memcmp (a # as) (b # bs) = (if a < b then - 1 else if b < a then 1 else memcmp as bs)"
| "memcmp _ _ = 0"

section \<open>Streams of \<open>char\<close>\<close>

text \<open>
  An output stream is the characters written so far and its state: \<open>ogood\<close> is false once
  any of \<open>failbit\<close>, \<open>badbit\<close> is set. \<open>write\<close> and \<open>put\<close> do nothing on a stream that is
  not good.
\<close>

record ostream =
  written :: "byte list"
  ogood :: bool

definition ostream_write :: "byte list \<Rightarrow> ostream \<Rightarrow> ostream" where
  "ostream_write bs ost = (if ogood ost then ost\<lparr>written := written ost @ bs\<rparr> else ost)"

definition ostream_put :: "byte \<Rightarrow> ostream \<Rightarrow> ostream" where
  "ostream_put c ost = ostream_write [c] ost"

text \<open>
  An input stream is the characters not yet read and its state: \<open>igood\<close> is false once any
  of \<open>eofbit\<close>, \<open>failbit\<close>, \<open>badbit\<close> is set. \<open>read\<close> of \<open>n\<close> characters on a good stream
  takes \<open>n\<close> characters, or takes what is left and sets \<open>eofbit\<close> and \<open>failbit\<close>; on a
  stream that is not good it takes nothing. It returns the characters it stored. \<open>get\<close>
  takes one character or sets the bits.
\<close>

record istream =
  pending :: "byte list"
  igood :: bool

definition istream_read :: "nat \<Rightarrow> istream \<Rightarrow> byte list \<times> istream" where
  "istream_read n ist =
     (if \<not> igood ist then ([], ist)
      else if n \<le> length (pending ist)
        then (take n (pending ist), ist\<lparr>pending := drop n (pending ist)\<rparr>)
      else (pending ist, ist\<lparr>pending := [], igood := False\<rparr>))"

definition istream_get :: "istream \<Rightarrow> istream" where
  "istream_get ist =
     (if \<not> igood ist then ist
      else case pending ist of
             [] \<Rightarrow> ist\<lparr>igood := False\<rparr>
           | c # cs \<Rightarrow> ist\<lparr>pending := cs\<rparr>)"

text \<open>
  \<^verbatim>\<open>ist.read(reinterpret_cast<char*>(&e.state[i]), sizeof(...))\<close> overwrites the first
  bytes of the word with the characters read and leaves the others as they were.
\<close>

definition read_word :: "endian \<Rightarrow> nat \<Rightarrow> 'a::len word \<Rightarrow> istream \<Rightarrow> 'a word \<times> istream" where
  "read_word e n old ist =
     (let (bs, ist') = istream_read n ist
      in (word_of e (bs @ drop (length bs) (bytes_of e n old)), ist'))"

section \<open>The generators\<close>

text \<open>
  Both classes have one data member, an array \<open>state[4]\<close> of words: one field per
  element, the word type a parameter.
\<close>

record 'w xoshiro =
  state0 :: 'w
  state1 :: 'w
  state2 :: 'w
  state3 :: 'w

type_synonym Xoshiro256PP = "u64 xoshiro"
type_synonym Xoshiro128PP = "u32 xoshiro"

subsection \<open>\<open>Xoshiro256PP\<close>\<close>

text \<open>The default member initialiser of \<open>state\<close>, used by the defaulted constructor.\<close>

definition Xoshiro256PP_default :: Xoshiro256PP where
  "Xoshiro256PP_default =
     \<lparr>state0 = 0x3d23dce41c588f8c, state1 = 0x10c770bb8da027b0,
      state2 = 0xc7a4c5e87c63ba25, state3 = 0xa830f83239465a2e\<rparr>"

text \<open>\<open>void seed(const std::uint64_t seed)\<close>: the four assignments in order.\<close>

definition Xoshiro256PP_seed :: "u64 \<Rightarrow> Xoshiro256PP \<Rightarrow> Xoshiro256PP" where
  "Xoshiro256PP_seed seed g =
     (let g = g\<lparr>state0 := splitmix64 (splitmix64 seed)\<rparr>;
          g = g\<lparr>state1 := splitmix64 (state0 g)\<rparr>;
          g = g\<lparr>state2 := splitmix64 (state1 g)\<rparr>;
          g = g\<lparr>state3 := splitmix64 (state2 g)\<rparr>
      in g)"

text \<open>
  \<open>result_type operator()()\<close>: the statements in the order of the source, the object
  passed in and returned together with the result.
\<close>

definition Xoshiro256PP_call :: "Xoshiro256PP \<Rightarrow> (u64 \<times> Xoshiro256PP) option" where
  "Xoshiro256PP_call g = do {
     r \<leftarrow> rotl64 (state0 g + state3 g) 23;
     let result = r + state0 g;
     t \<leftarrow> shl64 (state1 g) 17;
     let g = g\<lparr>state2 := state2 g XOR state0 g\<rparr>;
     let g = g\<lparr>state3 := state3 g XOR state1 g\<rparr>;
     let g = g\<lparr>state1 := state1 g XOR state2 g\<rparr>;
     let g = g\<lparr>state0 := state0 g XOR state3 g\<rparr>;
     let g = g\<lparr>state2 := state2 g XOR t\<rparr>;
     s3 \<leftarrow> rotl64 (state3 g) 45;
     let g = g\<lparr>state3 := s3\<rparr>;
     Some (result, g)
   }"

text \<open>
  \<^verbatim>\<open>for (unsigned long long ix = 0; ix < z; ix++) this->operator()();\<close>
  with \<open>unsigned long long\<close> of 64 bits.
\<close>

function Xoshiro256PP_discard_loop :: "u64 \<Rightarrow> u64 \<Rightarrow> Xoshiro256PP \<Rightarrow> Xoshiro256PP option" where
  "Xoshiro256PP_discard_loop ix z g =
     (if ix < z
      then (case Xoshiro256PP_call g of
              None \<Rightarrow> None
            | Some (r, g') \<Rightarrow> Xoshiro256PP_discard_loop (ix + 1) z g')
      else Some g)"
  by pat_completeness auto
termination
proof (relation "measure (\<lambda>(ix, z, g). unat z - unat ix)")
  fix ix z :: u64
  assume "ix < z"
  then have "unat ix < unat z" by (simp add: word_less_nat_alt)
  moreover have "unat z < 2 ^ LENGTH(64)" by (rule unsigned_less)
  ultimately have "unat ix + unat (1 :: u64) < 2 ^ LENGTH(64)" by simp
  then have "unat (ix + 1) = unat ix + unat (1 :: u64)" by (simp only: unat_add_lem)
  with \<open>unat ix < unat z\<close>
  show "((ix + 1, z, g'), (ix, z, g)) \<in> measure (\<lambda>(ix, z, g). unat z - unat ix)"
    for g g' :: Xoshiro256PP
    by simp
qed simp

definition Xoshiro256PP_discard :: "u64 \<Rightarrow> Xoshiro256PP \<Rightarrow> Xoshiro256PP option" where
  "Xoshiro256PP_discard z g = Xoshiro256PP_discard_loop 0 z g"

text \<open>
  The array \<open>state\<close> as \<open>memcmp\<close> and the stream operators see it: the bytes of the
  four words, one word after the other.
\<close>

definition Xoshiro256PP_state_bytes :: "endian \<Rightarrow> Xoshiro256PP \<Rightarrow> byte list" where
  "Xoshiro256PP_state_bytes e g =
     bytes_of e 8 (state0 g) @ bytes_of e 8 (state1 g) @
     bytes_of e 8 (state2 g) @ bytes_of e 8 (state3 g)"

text \<open>
  \<^verbatim>\<open>bool operator==(const Xoshiro256PP &rhs)
  { return std::memcmp(this->state, rhs.state, 4*sizeof(std::uint64_t)); }\<close>
  The \<open>int\<close> that \<open>memcmp\<close> returns is converted to \<open>bool\<close>: true when it is not 0.
\<close>

definition Xoshiro256PP_eq :: "endian \<Rightarrow> Xoshiro256PP \<Rightarrow> Xoshiro256PP \<Rightarrow> bool" where
  "Xoshiro256PP_eq e this rhs =
     (memcmp (Xoshiro256PP_state_bytes e this) (Xoshiro256PP_state_bytes e rhs) \<noteq> 0)"

text \<open>
  \<^verbatim>\<open>bool operator!=(const Xoshiro256PP &rhs)
  { return !std::memcmp(this->state, rhs.state, 4*sizeof(std::uint64_t)); }\<close>
\<close>

definition Xoshiro256PP_ne :: "endian \<Rightarrow> Xoshiro256PP \<Rightarrow> Xoshiro256PP \<Rightarrow> bool" where
  "Xoshiro256PP_ne e this rhs =
     (\<not> (memcmp (Xoshiro256PP_state_bytes e this) (Xoshiro256PP_state_bytes e rhs) \<noteq> 0))"

text \<open>\<open>operator<<\<close>: four \<open>write\<close>s of 8 characters, a \<open>put(' ')\<close> between them.\<close>

definition Xoshiro256PP_write :: "endian \<Rightarrow> ostream \<Rightarrow> Xoshiro256PP \<Rightarrow> ostream" where
  "Xoshiro256PP_write e ost g =
     (let ost = ostream_write (bytes_of e 8 (state0 g)) ost;
          ost = ostream_put 0x20 ost;
          ost = ostream_write (bytes_of e 8 (state1 g)) ost;
          ost = ostream_put 0x20 ost;
          ost = ostream_write (bytes_of e 8 (state2 g)) ost;
          ost = ostream_put 0x20 ost;
          ost = ostream_write (bytes_of e 8 (state3 g)) ost
      in ost)"

text \<open>
  \<open>operator>>\<close>: four \<open>read\<close>s of 8 characters into the words of \<open>state\<close>, a \<open>get()\<close>
  between them whose result is dropped.
\<close>

definition Xoshiro256PP_read :: "endian \<Rightarrow> istream \<Rightarrow> Xoshiro256PP \<Rightarrow> istream \<times> Xoshiro256PP" where
  "Xoshiro256PP_read e ist g =
     (let (w, ist) = read_word e 8 (state0 g) ist; g = g\<lparr>state0 := w\<rparr>;
          ist = istream_get ist;
          (w, ist) = read_word e 8 (state1 g) ist; g = g\<lparr>state1 := w\<rparr>;
          ist = istream_get ist;
          (w, ist) = read_word e 8 (state2 g) ist; g = g\<lparr>state2 := w\<rparr>;
          ist = istream_get ist;
          (w, ist) = read_word e 8 (state3 g) ist; g = g\<lparr>state3 := w\<rparr>
      in (ist, g))"

subsection \<open>\<open>Xoshiro128PP\<close>\<close>

definition Xoshiro128PP_default :: Xoshiro128PP where
  "Xoshiro128PP_default =
     \<lparr>state0 = 0x1c588f8c, state1 = 0x3d23dce4, state2 = 0x8da027b0, state3 = 0x10c770bb\<rparr>"

text \<open>
  \<open>void seed(const std::uint64_t seed)\<close>. The argument of each inner \<open>splitmix64\<close> is a
  \<open>std::uint32_t\<close> converted to \<open>std::uint64_t\<close>, and the assignment to \<open>state[i]\<close>
  converts its result to \<open>std::uint32_t\<close>.
\<close>

definition Xoshiro128PP_seed64 :: "endian \<Rightarrow> u64 \<Rightarrow> Xoshiro128PP \<Rightarrow> Xoshiro128PP" where
  "Xoshiro128PP_seed64 e seed g =
     (let t1 = splitmix64 seed;
          t2 = splitmix64 t1;
          g = g\<lparr>state0 := ucast (splitmix64 (ucast (extract_32bits_from64_left e t1)))\<rparr>;
          g = g\<lparr>state1 := ucast (splitmix64 (ucast (extract_32bits_from64_right e t1)))\<rparr>;
          g = g\<lparr>state2 := ucast (splitmix64 (ucast (extract_32bits_from64_left e t2)))\<rparr>;
          g = g\<lparr>state3 := ucast (splitmix64 (ucast (extract_32bits_from64_right e t2)))\<rparr>
      in g)"

text \<open>
  \<^verbatim>\<open>
  void seed(const std::uint32_t seed)
  {
      std::uint64_t temp;
      assign_32bits_to64_left(temp, seed);
      assign_32bits_to64_right(temp, seed);
      this->seed(temp);
  }
  \<close>
  \<open>temp\<close> is declared without an initialiser: the value it happens to hold is the
  parameter \<open>temp\<close> of the model. Each helper works on its own copy of \<open>temp\<close>
  (\<open>copy1\<close>, \<open>copy2\<close>) and returns nothing, so \<open>temp\<close> itself is what is passed on.
\<close>

definition Xoshiro128PP_seed32 :: "endian \<Rightarrow> u64 \<Rightarrow> u32 \<Rightarrow> Xoshiro128PP \<Rightarrow> Xoshiro128PP" where
  "Xoshiro128PP_seed32 e temp seed g =
     (let copy1 = assign_32bits_to64_left e temp seed;
          copy2 = assign_32bits_to64_right e temp seed
      in Xoshiro128PP_seed64 e temp g)"

definition Xoshiro128PP_call :: "Xoshiro128PP \<Rightarrow> (u32 \<times> Xoshiro128PP) option" where
  "Xoshiro128PP_call g = do {
     r \<leftarrow> rotl32 (state0 g + state3 g) 7;
     let result = r + state0 g;
     t \<leftarrow> shl32 (state1 g) 9;
     let g = g\<lparr>state2 := state2 g XOR state0 g\<rparr>;
     let g = g\<lparr>state3 := state3 g XOR state1 g\<rparr>;
     let g = g\<lparr>state1 := state1 g XOR state2 g\<rparr>;
     let g = g\<lparr>state0 := state0 g XOR state3 g\<rparr>;
     let g = g\<lparr>state2 := state2 g XOR t\<rparr>;
     s3 \<leftarrow> rotl32 (state3 g) 11;
     let g = g\<lparr>state3 := s3\<rparr>;
     Some (result, g)
   }"

function Xoshiro128PP_discard_loop :: "u64 \<Rightarrow> u64 \<Rightarrow> Xoshiro128PP \<Rightarrow> Xoshiro128PP option" where
  "Xoshiro128PP_discard_loop ix z g =
     (if ix < z
      then (case Xoshiro128PP_call g of
              None \<Rightarrow> None
            | Some (r, g') \<Rightarrow> Xoshiro128PP_discard_loop (ix + 1) z g')
      else Some g)"
  by pat_completeness auto
termination
proof (relation "measure (\<lambda>(ix, z, g). unat z - unat ix)")
  fix ix z :: u64
  assume "ix < z"
  then have "unat ix < unat z" by (simp add: word_less_nat_alt)
  moreover have "unat z < 2 ^ LENGTH(64)" by (rule unsigned_less)
  ultimately have "unat ix + unat (1 :: u64) < 2 ^ LENGTH(64)" by simp
  then have "unat (ix + 1) = unat ix + unat (1 :: u64)" by (simp only: unat_add_lem)
  with \<open>unat ix < unat z\<close>
  show "((ix + 1, z, g'), (ix, z, g)) \<in> measure (\<lambda>(ix, z, g). unat z - unat ix)"
    for g g' :: Xoshiro128PP
    by simp
qed simp

definition Xoshiro128PP_discard :: "u64 \<Rightarrow> Xoshiro128PP \<Rightarrow> Xoshiro128PP option" where
  "Xoshiro128PP_discard z g = Xoshiro128PP_discard_loop 0 z g"

definition Xoshiro128PP_state_bytes :: "endian \<Rightarrow> Xoshiro128PP \<Rightarrow> byte list" where
  "Xoshiro128PP_state_bytes e g =
     bytes_of e 4 (state0 g) @ bytes_of e 4 (state1 g) @
     bytes_of e 4 (state2 g) @ bytes_of e 4 (state3 g)"

definition Xoshiro128PP_eq :: "endian \<Rightarrow> Xoshiro128PP \<Rightarrow> Xoshiro128PP \<Rightarrow> bool" where
  "Xoshiro128PP_eq e this rhs =
     (memcmp (Xoshiro128PP_state_bytes e this) (Xoshiro128PP_state_bytes e rhs) \<noteq> 0)"

definition Xoshiro128PP_ne :: "endian \<Rightarrow> Xoshiro128PP \<Rightarrow> Xoshiro128PP \<Rightarrow> bool" where
  "Xoshiro128PP_ne e this rhs =
     (\<not> (memcmp (Xoshiro128PP_state_bytes e this) (Xoshiro128PP_state_bytes e rhs) \<noteq> 0))"

definition Xoshiro128PP_write :: "endian \<Rightarrow> ostream \<Rightarrow> Xoshiro128PP \<Rightarrow> ostream" where
  "Xoshiro128PP_write e ost g =
     (let ost = ostream_write (bytes_of e 4 (state0 g)) ost;
          ost = ostream_put 0x20 ost;
          ost = ostream_write (bytes_of e 4 (state1 g)) ost;
          ost = ostream_put 0x20 ost;
          ost = ostream_write (bytes_of e 4 (state2 g)) ost;
          ost = ostream_put 0x20 ost;
          ost = ostream_write (bytes_of e 4 (state3 g)) ost
      in ost)"

definition Xoshiro128PP_read :: "endian \<Rightarrow> istream \<Rightarrow> Xoshiro128PP \<Rightarrow> istream \<times> Xoshiro128PP" where
  "Xoshiro128PP_read e ist g =
     (let (w, ist) = read_word e 4 (state0 g) ist; g = g\<lparr>state0 := w\<rparr>;
          ist = istream_get ist;
          (w, ist) = read_word e 4 (state1 g) ist; g = g\<lparr>state1 := w\<rparr>;
          ist = istream_get ist;
          (w, ist) = read_word e 4 (state2 g) ist; g = g\<lparr>state2 := w\<rparr>;
          ist = istream_get ist;
          (w, ist) = read_word e 4 (state3 g) ist; g = g\<lparr>state3 := w\<rparr>
      in (ist, g))"

section \<open>Callers that the properties speak of\<close>

text \<open>
  \<open>n\<close> successive calls of \<open>operator()\<close>: the results in order and the object after the
  last call.
\<close>

fun Xoshiro256PP_calls :: "nat \<Rightarrow> Xoshiro256PP \<Rightarrow> (u64 list \<times> Xoshiro256PP) option" where
  "Xoshiro256PP_calls 0 g = Some ([], g)"
| "Xoshiro256PP_calls (Suc n) g =
     (case Xoshiro256PP_call g of
        None \<Rightarrow> None
      | Some (r, g') \<Rightarrow>
          (case Xoshiro256PP_calls n g' of
             None \<Rightarrow> None
           | Some (rs, g'') \<Rightarrow> Some (r # rs, g'')))"

fun Xoshiro128PP_calls :: "nat \<Rightarrow> Xoshiro128PP \<Rightarrow> (u32 list \<times> Xoshiro128PP) option" where
  "Xoshiro128PP_calls 0 g = Some ([], g)"
| "Xoshiro128PP_calls (Suc n) g =
     (case Xoshiro128PP_call g of
        None \<Rightarrow> None
      | Some (r, g') \<Rightarrow>
          (case Xoshiro128PP_calls n g' of
             None \<Rightarrow> None
           | Some (rs, g'') \<Rightarrow> Some (r # rs, g'')))"

text \<open>A stream that was just opened, and the stream that reads back what was written.\<close>

definition ostream_empty :: ostream where
  "ostream_empty = \<lparr>written = [], ogood = True\<rparr>"

definition istream_of :: "byte list \<Rightarrow> istream" where
  "istream_of bs = \<lparr>pending = bs, igood = True\<rparr>"

text \<open>The state that is zero everywhere.\<close>

definition Xoshiro256PP_zero :: Xoshiro256PP where
  "Xoshiro256PP_zero = \<lparr>state0 = 0, state1 = 0, state2 = 0, state3 = 0\<rparr>"

definition Xoshiro128PP_zero :: Xoshiro128PP where
  "Xoshiro128PP_zero = \<lparr>state0 = 0, state1 = 0, state2 = 0, state3 = 0\<rparr>"

text \<open>
  The halves of a 64-bit word and the seeding of \<open>Xoshiro128PP\<close> from a 64-bit scalar as
  the specification words them: \<open>highHalf\<close> is the upper 32 bits, \<open>lowHalf\<close> the lower
  32 bits, \<open>expand\<close> is applied to the half zero-extended to 64 bits and its result is
  cut to the low 32 bits; \<open>state[0]\<close> and \<open>state[2]\<close> come from the high halves of
  \<open>t1\<close> and \<open>t2\<close>, \<open>state[1]\<close> and \<open>state[3]\<close> from the low halves.
\<close>

definition highHalf :: "u64 \<Rightarrow> u32" where
  "highHalf x = ucast (drop_bit 32 x)"

definition lowHalf :: "u64 \<Rightarrow> u32" where
  "lowHalf x = ucast x"

definition expand32 :: "u32 \<Rightarrow> u32" where
  "expand32 a = ucast (splitmix64 (ucast a))"

definition claimed_seed64 :: "u64 \<Rightarrow> Xoshiro128PP" where
  "claimed_seed64 s =
     (let t1 = splitmix64 s; t2 = splitmix64 t1
      in \<lparr>state0 = expand32 (highHalf t1), state1 = expand32 (lowHalf t1),
          state2 = expand32 (highHalf t2), state3 = expand32 (lowHalf t2)\<rparr>)"

section \<open>Rotation\<close>

text \<open>
  For a count strictly between 0 and the width, the two shifts of \<open>rotl64\<close> and \<open>rotl32\<close>
  are defined and their union is the circular rotation \<open>word_rotl\<close>.
\<close>

lemma shifts_rotate:
  fixes x :: "'a::len word"
  assumes "0 < n" "n < LENGTH('a)"
  shows "push_bit n x OR drop_bit (LENGTH('a) - n) x = word_rotl n x"
proof (rule bit_word_eqI)
  fix i assume i: "i < LENGTH('a)"
  have L: "bit (push_bit n x) i = (n \<le> i \<and> bit x (i - n))"
    using i by (simp add: bit_push_bit_iff)
  have R: "bit (drop_bit (LENGTH('a) - n) x) i = bit x (LENGTH('a) - n + i)"
    by (simp add: bit_drop_bit_eq)
  have W: "bit (word_rotl n x) i = bit x ((i + (LENGTH('a) - n)) mod LENGTH('a))"
    using i assms by (simp add: bit_word_rotl_iff)
  show "bit (push_bit n x OR drop_bit (LENGTH('a) - n) x) i = bit (word_rotl n x) i"
  proof (cases "n \<le> i")
    case True
    then have m: "(i + (LENGTH('a) - n)) mod LENGTH('a) = i - n"
      using i assms by (simp add: mod_if)
    have "\<not> bit x (LENGTH('a) - n + i)"
    proof
      assume "bit x (LENGTH('a) - n + i)"
      then have "LENGTH('a) - n + i < LENGTH('a)" by (rule bit_imp_le_length)
      with True assms show False by simp
    qed
    with True show ?thesis by (simp only: bit_or_iff L R W m) simp
  next
    case False
    then have m: "(i + (LENGTH('a) - n)) mod LENGTH('a) = LENGTH('a) - n + i"
      using i assms by simp
    from False show ?thesis by (simp only: bit_or_iff L R W m) simp
  qed
qed

lemma rotl64_rotates:
  assumes "1 \<le> k" "k \<le> 63"
  shows "rotl64 x k = Some (word_rotl (nat k) x)"
proof -
  have "nat (64 - k) = LENGTH(64) - nat k" using assms by simp
  then show ?thesis using assms shifts_rotate [of "nat k" x]
    by (simp add: rotl64_def shl64_def shr64_def)
qed

lemma rotl32_rotates:
  assumes "1 \<le> k" "k \<le> 31"
  shows "rotl32 x k = Some (word_rotl (nat k) x)"
proof -
  have "nat (32 - k) = LENGTH(32) - nat k" using assms by simp
  then show ?thesis using assms shifts_rotate [of "nat k" x]
    by (simp add: rotl32_def shl32_def shr32_def)
qed

text \<open>
  Wherever the language gives \<open>rotl64\<close> or \<open>rotl32\<close> a value, the compiled function
  returns that value, whatever it does with counts out of range.
\<close>

lemma rotl64_compiled_agrees:
  "rotl64 x k = Some r \<Longrightarrow> rotl64_compiled m x k = r"
  by (auto simp add: rotl64_def rotl64_compiled_def shl64_def shr64_def shl64_compiled_def
        shr64_compiled_def split: if_splits)

lemma rotl32_compiled_agrees:
  "rotl32 x k = Some r \<Longrightarrow> rotl32_compiled m x k = r"
  by (auto simp add: rotl32_def rotl32_compiled_def shl32_def shr32_def shl32_compiled_def
        shr32_compiled_def split: if_splits)

text \<open>
  For every count from 0 to the width less one the compiled function is the circular
  rotation, the count 0 included.
\<close>

lemma word_rotl_by_0: "word_rotl 0 x = x"
  by (rule bit_word_eqI) (simp add: bit_word_rotl_iff)

lemma rotl64_compiled_rotates:
  assumes "0 \<le> k" "k \<le> 63"
  shows "rotl64_compiled m x k = word_rotl (nat k) x"
proof (cases "k = 0")
  case True
  then show ?thesis
    by (cases m)
       (simp_all add: rotl64_compiled_def shl64_compiled_def shr64_compiled_def word_rotl_by_0)
next
  case False
  with assms have "rotl64 x k = Some (word_rotl (nat k) x)" by (simp add: rotl64_rotates)
  then show ?thesis by (rule rotl64_compiled_agrees)
qed

lemma rotl32_compiled_rotates:
  assumes "0 \<le> k" "k \<le> 31"
  shows "rotl32_compiled m x k = word_rotl (nat k) x"
proof (cases "k = 0")
  case True
  then show ?thesis
    by (cases m)
       (simp_all add: rotl32_compiled_def shl32_compiled_def shr32_compiled_def word_rotl_by_0)
next
  case False
  with assms have "rotl32 x k = Some (word_rotl (nat k) x)" by (simp add: rotl32_rotates)
  then show ?thesis by (rule rotl32_compiled_agrees)
qed


section \<open>The advance operation\<close>

text \<open>
  The calls of \<open>rotl64\<close> and the shift in \<open>operator()\<close> have constant counts inside the
  defined range, so \<open>operator()\<close> always returns. Running the assignments in order,
  \<open>state[2]\<close> becomes \<open>state[2] ^ state[0]\<close> and then is xored with \<open>t\<close>; \<open>state[3]\<close>
  becomes \<open>state[3] ^ state[1]\<close> and then is rotated; \<open>state[1]\<close> is xored with the new
  \<open>state[2]\<close> before \<open>t\<close> goes in; \<open>state[0]\<close> is xored with the new \<open>state[3]\<close> before
  the rotation.
\<close>

lemma Xoshiro256PP_call_eq:
  "Xoshiro256PP_call g =
     Some (word_rotl 23 (state0 g + state3 g) + state0 g,
           \<lparr>state0 = state0 g XOR state3 g XOR state1 g,
            state1 = state1 g XOR state2 g XOR state0 g,
            state2 = state2 g XOR state0 g XOR push_bit 17 (state1 g),
            state3 = word_rotl 45 (state3 g XOR state1 g)\<rparr>)"
  by (cases g) (simp add: Xoshiro256PP_call_def rotl64_rotates shl64_def xor.assoc)

lemma Xoshiro128PP_call_eq:
  "Xoshiro128PP_call g =
     Some (word_rotl 7 (state0 g + state3 g) + state0 g,
           \<lparr>state0 = state0 g XOR state3 g XOR state1 g,
            state1 = state1 g XOR state2 g XOR state0 g,
            state2 = state2 g XOR state0 g XOR push_bit 9 (state1 g),
            state3 = word_rotl 11 (state3 g XOR state1 g)\<rparr>)"
  by (cases g) (simp add: Xoshiro128PP_call_def rotl32_rotates shl32_def xor.assoc)

text \<open>
  C1. For every state of \<open>Xoshiro256PP\<close>, \<open>operator()\<close> returns
  \<open>rotl64(state[0] + state[3], 23) + state[0]\<close> computed from the state before the call,
  and leaves the state that the six assignments of the source produce from it: both calls
  of \<open>rotl64\<close> are defined and are rotations, the sum and the result wrap modulo \<open>2^64\<close>.
\<close>

theorem Xoshiro256PP_call_result_and_state:
  "rotl64 (state0 g + state3 g) 23 = Some (word_rotl 23 (state0 g + state3 g)) \<and>
   rotl64 (state3 g XOR state1 g) 45 = Some (word_rotl 45 (state3 g XOR state1 g)) \<and>
   shl64 (state1 g) 17 = Some (push_bit 17 (state1 g)) \<and>
   Xoshiro256PP_call g =
     Some (word_rotl 23 (state0 g + state3 g) + state0 g,
           \<lparr>state0 = state0 g XOR state3 g XOR state1 g,
            state1 = state1 g XOR state2 g XOR state0 g,
            state2 = state2 g XOR state0 g XOR push_bit 17 (state1 g),
            state3 = word_rotl 45 (state3 g XOR state1 g)\<rparr>) \<and>
   unat (state0 g + state3 g) = (unat (state0 g) + unat (state3 g)) mod 2 ^ 64 \<and>
   unat (word_rotl 23 (state0 g + state3 g) + state0 g) =
     (unat (word_rotl 23 (state0 g + state3 g)) + unat (state0 g)) mod 2 ^ 64"
  by (simp add: rotl64_rotates shl64_def Xoshiro256PP_call_eq unat_word_ariths)

section \<open>The transition is a bijection that fixes only zero\<close>

text \<open>
  \<open>x \<mapsto> x ^ (x << n)\<close> is injective for \<open>n > 0\<close>: applying it twice doubles the shift,
  and a shift by the width or more contributes nothing.
\<close>

lemma xor_twice: "(a XOR x) XOR x = (a :: 'a::len word)"
  by (simp add: xor.assoc)

lemma xor_right_cancel: "a XOR x = b XOR x \<Longrightarrow> a = (b :: 'a::len word)"
  by (metis xor_twice)

lemma xor_eq_self_zero: "x XOR y = x \<Longrightarrow> y = (0 :: 'a::len word)"
  by (metis xor_self_eq xor.left_commute xor.right_neutral)

lemma xorshift_double:
  fixes x :: "'a::len word"
  shows "(x XOR push_bit n x) XOR push_bit n (x XOR push_bit n x) = x XOR push_bit (n + n) x"
proof -
  have "(x XOR push_bit n x) XOR push_bit n (x XOR push_bit n x)
      = x XOR ((push_bit n x XOR push_bit n x) XOR push_bit n (push_bit n x))"
    by (simp only: push_bit_xor xor.assoc)
  then show ?thesis by simp
qed

lemma xorshift_inj:
  fixes x y :: "'a::len word"
  assumes n: "0 < n" and eq: "x XOR push_bit n x = y XOR push_bit n y"
  shows "x = y"
proof -
  have step: "x XOR push_bit (2 ^ k * n) x = y XOR push_bit (2 ^ k * n) y" for k
  proof (induction k)
    case 0
    from eq show ?case by simp
  next
    case (Suc k)
    let ?m = "2 ^ k * n"
    have "x XOR push_bit (?m + ?m) x = (x XOR push_bit ?m x) XOR push_bit ?m (x XOR push_bit ?m x)"
      by (simp only: xorshift_double)
    also have "\<dots> = (y XOR push_bit ?m y) XOR push_bit ?m (y XOR push_bit ?m y)"
      by (simp only: Suc.IH)
    also have "\<dots> = y XOR push_bit (?m + ?m) y"
      by (simp only: xorshift_double)
    finally show ?case by (simp add: mult_2 distrib_right)
  qed
  have "LENGTH('a) < 2 ^ LENGTH('a)" by (rule less_exp)
  also have "\<dots> \<le> 2 ^ LENGTH('a) * n" using n by simp
  finally have "LENGTH('a) \<le> 2 ^ LENGTH('a) * n" by simp
  with step [of "LENGTH('a)"] show ?thesis by simp
qed

lemma Xoshiro256PP_call_inj:
  fixes g h :: Xoshiro256PP
  assumes "Xoshiro256PP_call g = Some (r, s)" "Xoshiro256PP_call h = Some (r', s)"
  shows "g = h"
proof -
  from assms have
    e0: "state0 g XOR (state3 g XOR state1 g) = state0 h XOR (state3 h XOR state1 h)" and
    e1: "state1 g XOR (state2 g XOR state0 g) = state1 h XOR (state2 h XOR state0 h)" and
    e2: "state2 g XOR (state0 g XOR push_bit 17 (state1 g)) =
         state2 h XOR (state0 h XOR push_bit 17 (state1 h))" and
    e3: "word_rotl 45 (state3 g XOR state1 g) = word_rotl 45 (state3 h XOR state1 h)"
    by (auto simp add: Xoshiro256PP_call_eq)
  from e3 have d: "state3 g XOR state1 g = state3 h XOR state1 h"
    by (metis word_rot_lr)
  from e0 d have a: "state0 g = state0 h"
    by (metis xor_right_cancel)
  have mix: "(b XOR (c XOR a)) XOR (c XOR (a XOR t)) = b XOR t" for a b c t :: u64
    by (simp add: ac_simps)
  have "state1 g XOR push_bit 17 (state1 g) = state1 h XOR push_bit 17 (state1 h)"
    using e1 e2 mix [of "state1 g" "state2 g" "state0 g" "push_bit 17 (state1 g)"]
      mix [of "state1 h" "state2 h" "state0 h" "push_bit 17 (state1 h)"]
    by (simp only:)
  then have b: "state1 g = state1 h" by (rule xorshift_inj [rotated]) simp
  from d b have dd: "state3 g = state3 h" by (metis xor_right_cancel)
  from e1 a b have c: "state2 g = state2 h" by (metis xor_right_cancel xor.commute)
  from a b c dd show ?thesis by simp
qed

lemma Xoshiro256PP_call_zero: "Xoshiro256PP_call Xoshiro256PP_zero = Some (0, Xoshiro256PP_zero)"
  by (simp add: Xoshiro256PP_call_eq Xoshiro256PP_zero_def)

lemma Xoshiro256PP_call_fixed:
  assumes "Xoshiro256PP_call g = Some (r, g)"
  shows "g = Xoshiro256PP_zero"
proof -
  from assms have eq:
    "\<lparr>state0 = state0 g XOR state3 g XOR state1 g,
      state1 = state1 g XOR state2 g XOR state0 g,
      state2 = state2 g XOR state0 g XOR push_bit 17 (state1 g),
      state3 = word_rotl 45 (state3 g XOR state1 g)\<rparr> = g"
    by (simp add: Xoshiro256PP_call_eq)
  have e0: "state0 g XOR (state3 g XOR state1 g) = state0 g"
    using arg_cong [OF eq, of state0] by simp
  have e1: "state1 g XOR (state2 g XOR state0 g) = state1 g"
    using arg_cong [OF eq, of state1] by simp
  have e2: "state2 g XOR (state0 g XOR push_bit 17 (state1 g)) = state2 g"
    using arg_cong [OF eq, of state2] by simp
  have e3: "word_rotl 45 (state3 g XOR state1 g) = state3 g"
    using arg_cong [OF eq, of state3] by simp
  from e0 have "state3 g XOR state1 g = 0" by (rule xor_eq_self_zero)
  with e3 have d: "state3 g = 0" by simp
  with \<open>state3 g XOR state1 g = 0\<close> have b: "state1 g = 0" by simp
  from e2 have "state0 g XOR push_bit 17 (state1 g) = 0" by (rule xor_eq_self_zero)
  with b have a: "state0 g = 0" by simp
  from e1 have "state2 g XOR state0 g = 0" by (rule xor_eq_self_zero)
  with a have c: "state2 g = 0" by simp
  from a b c d show ?thesis by (simp add: Xoshiro256PP_zero_def)
qed

text \<open>
  C10. The state transition of \<open>Xoshiro256PP::operator()\<close> is injective: two states with
  the same successor are equal. A state that is not zero everywhere has a successor that
  is not zero everywhere; from the zero state the call returns 0 and leaves the zero
  state; no other state is its own successor; and the call always returns.
\<close>

theorem Xoshiro256PP_transition_injective:
  "(Xoshiro256PP_call g = Some (r, s) \<and> Xoshiro256PP_call h = Some (r', s) \<longrightarrow> g = h) \<and>
   (g1 \<noteq> Xoshiro256PP_zero \<and> Xoshiro256PP_call g1 = Some (r1, s1) \<longrightarrow> s1 \<noteq> Xoshiro256PP_zero) \<and>
   Xoshiro256PP_call Xoshiro256PP_zero = Some (0, Xoshiro256PP_zero) \<and>
   (Xoshiro256PP_call g2 = Some (r2, g2) \<longrightarrow> g2 = Xoshiro256PP_zero) \<and>
   (\<exists>r3 s3. Xoshiro256PP_call g3 = Some (r3, s3))"
proof (intro conjI impI)
  assume "Xoshiro256PP_call g = Some (r, s) \<and> Xoshiro256PP_call h = Some (r', s)"
  then show "g = h" by (blast intro: Xoshiro256PP_call_inj)
next
  assume a: "g1 \<noteq> Xoshiro256PP_zero \<and> Xoshiro256PP_call g1 = Some (r1, s1)"
  show "s1 \<noteq> Xoshiro256PP_zero"
  proof
    assume "s1 = Xoshiro256PP_zero"
    with a have "Xoshiro256PP_call g1 = Some (r1, Xoshiro256PP_zero)" by simp
    then have "g1 = Xoshiro256PP_zero"
      using Xoshiro256PP_call_zero by (rule Xoshiro256PP_call_inj)
    with a show False by simp
  qed
next
  show "Xoshiro256PP_call Xoshiro256PP_zero = Some (0, Xoshiro256PP_zero)"
    by (rule Xoshiro256PP_call_zero)
next
  assume "Xoshiro256PP_call g2 = Some (r2, g2)"
  then show "g2 = Xoshiro256PP_zero" by (rule Xoshiro256PP_call_fixed)
next
  show "\<exists>r3 s3. Xoshiro256PP_call g3 = Some (r3, s3)"
    by (simp add: Xoshiro256PP_call_eq)
qed


theorem Xoshiro256PP_transition_injective_witness:
  "Xoshiro256PP_call \<lparr>state0 = 1, state1 = 0, state2 = 0, state3 = 0\<rparr> =
     Some (0x800001, \<lparr>state0 = 1, state1 = 1, state2 = 1, state3 = 0\<rparr>) \<and>
   \<lparr>state0 = 1, state1 = 0, state2 = 0, state3 = 0\<rparr> \<noteq> Xoshiro256PP_zero \<and>
   \<lparr>state0 = 1, state1 = 1, state2 = 1, state3 = 0\<rparr> \<noteq> Xoshiro256PP_zero \<and>
   Xoshiro256PP_call Xoshiro256PP_zero = Some (0, Xoshiro256PP_zero)"
  using Xoshiro256PP_transition_injective
    [of "\<lparr>state0 = 1, state1 = 0, state2 = 0, state3 = 0\<rparr>" "0x800001"
        "\<lparr>state0 = 1, state1 = 1, state2 = 1, state3 = 0\<rparr>"
        "\<lparr>state0 = 1, state1 = 0, state2 = 0, state3 = 0\<rparr>" "0x800001"
        "\<lparr>state0 = 1, state1 = 0, state2 = 0, state3 = 0\<rparr>" "0x800001"
        "\<lparr>state0 = 1, state1 = 1, state2 = 1, state3 = 0\<rparr>"
        Xoshiro256PP_zero 0 Xoshiro256PP_zero]
  by (simp add: Xoshiro256PP_call_def rotl64_def shl64_def shr64_def Xoshiro256PP_zero_def)

section \<open>\<open>discard\<close>\<close>

text \<open>
  The loop counter \<open>ix\<close> stays below \<open>z\<close>, so \<open>ix++\<close> never wraps and the loop runs
  \<open>z\<close> times: \<open>discard(z)\<close> is \<open>z\<close> calls of \<open>operator()\<close> whose results are dropped.
\<close>

lemma word_succ_unat:
  fixes ix z :: u64
  assumes "ix < z"
  shows "unat (ix + 1) = Suc (unat ix)"
proof -
  from assms have "unat ix < unat z" by (simp add: word_less_nat_alt)
  moreover have "unat z < 2 ^ LENGTH(64)" by (rule unsigned_less)
  ultimately have "unat ix + unat (1 :: u64) < 2 ^ LENGTH(64)" by simp
  then have "unat (ix + 1) = unat ix + unat (1 :: u64)" by (simp only: unat_add_lem)
  then show ?thesis by simp
qed

lemma Xoshiro256PP_calls_snoc:
  assumes "Xoshiro256PP_calls n g = Some (rs, g')" "Xoshiro256PP_call g' = Some (r, g'')"
  shows "Xoshiro256PP_calls (Suc n) g = Some (rs @ [r], g'')"
  using assms
proof (induction n arbitrary: g rs)
  case 0
  then show ?case by simp
next
  case (Suc n)
  from Suc.prems(1) obtain r0 g1 rs1 where
    c: "Xoshiro256PP_call g = Some (r0, g1)" and
    cs: "Xoshiro256PP_calls n g1 = Some (rs1, g')" and rs: "rs = r0 # rs1"
    by (auto split: option.splits)
  from cs Suc.prems(2) have "Xoshiro256PP_calls (Suc n) g1 = Some (rs1 @ [r], g'')"
    by (rule Suc.IH)
  with c rs show ?case
    by (subst Xoshiro256PP_calls.simps(2)) (simp only: option.case prod.case append_Cons)
qed

lemma Xoshiro256PP_calls_Some:
  "\<exists>rs g'. Xoshiro256PP_calls n g = Some (rs, g') \<and> length rs = n"
proof (induction n arbitrary: g)
  case 0
  show ?case by simp
next
  case (Suc n)
  obtain r g1 where c: "Xoshiro256PP_call g = Some (r, g1)"
    by (simp add: Xoshiro256PP_call_eq)
  from Suc.IH [of g1] obtain rs g2 where "Xoshiro256PP_calls n g1 = Some (rs, g2)" "length rs = n"
    by blast
  with c show ?case by simp
qed

lemma Xoshiro256PP_discard_loop_calls:
  "unat z - unat ix = n \<Longrightarrow> ix \<le> z \<Longrightarrow>
   Xoshiro256PP_discard_loop ix z g = map_option snd (Xoshiro256PP_calls n g)"
proof (induction n arbitrary: ix g)
  case 0
  then have "unat ix = unat z" by (simp add: word_le_nat_alt)
  then have "\<not> ix < z" by (simp add: word_less_nat_alt)
  then show ?case by (subst Xoshiro256PP_discard_loop.simps) simp
next
  case (Suc n)
  then have lt: "ix < z" by (simp add: word_less_nat_alt)
  then have s: "unat (ix + 1) = Suc (unat ix)" by (rule word_succ_unat)
  with Suc.prems have n: "unat z - unat (ix + 1) = n" by simp
  from lt s have le: "ix + 1 \<le> z" by (simp add: word_le_nat_alt word_less_nat_alt)
  obtain r g1 where c: "Xoshiro256PP_call g = Some (r, g1)"
    by (simp add: Xoshiro256PP_call_eq)
  obtain rs g2 where cs: "Xoshiro256PP_calls n g1 = Some (rs, g2)"
    using Xoshiro256PP_calls_Some by blast
  have "Xoshiro256PP_discard_loop ix z g = Xoshiro256PP_discard_loop (ix + 1) z g1"
    using lt c by (subst Xoshiro256PP_discard_loop.simps) simp
  also have "\<dots> = map_option snd (Xoshiro256PP_calls n g1)"
    using n le by (rule Suc.IH)
  finally show ?case using c cs by simp
qed

lemma Xoshiro256PP_discard_calls:
  "Xoshiro256PP_discard z g = map_option snd (Xoshiro256PP_calls (unat z) g)"
  unfolding Xoshiro256PP_discard_def
  by (rule Xoshiro256PP_discard_loop_calls) simp_all

lemma Xoshiro128PP_calls_snoc:
  assumes "Xoshiro128PP_calls n g = Some (rs, g')" "Xoshiro128PP_call g' = Some (r, g'')"
  shows "Xoshiro128PP_calls (Suc n) g = Some (rs @ [r], g'')"
  using assms
proof (induction n arbitrary: g rs)
  case 0
  then show ?case by simp
next
  case (Suc n)
  from Suc.prems(1) obtain r0 g1 rs1 where
    c: "Xoshiro128PP_call g = Some (r0, g1)" and
    cs: "Xoshiro128PP_calls n g1 = Some (rs1, g')" and rs: "rs = r0 # rs1"
    by (auto split: option.splits)
  from cs Suc.prems(2) have "Xoshiro128PP_calls (Suc n) g1 = Some (rs1 @ [r], g'')"
    by (rule Suc.IH)
  with c rs show ?case
    by (subst Xoshiro128PP_calls.simps(2)) (simp only: option.case prod.case append_Cons)
qed

lemma Xoshiro128PP_calls_Some:
  "\<exists>rs g'. Xoshiro128PP_calls n g = Some (rs, g') \<and> length rs = n"
proof (induction n arbitrary: g)
  case 0
  show ?case by simp
next
  case (Suc n)
  obtain r g1 where c: "Xoshiro128PP_call g = Some (r, g1)"
    by (simp add: Xoshiro128PP_call_eq)
  from Suc.IH [of g1] obtain rs g2 where "Xoshiro128PP_calls n g1 = Some (rs, g2)" "length rs = n"
    by blast
  with c show ?case by simp
qed

lemma Xoshiro128PP_discard_loop_calls:
  "unat z - unat ix = n \<Longrightarrow> ix \<le> z \<Longrightarrow>
   Xoshiro128PP_discard_loop ix z g = map_option snd (Xoshiro128PP_calls n g)"
proof (induction n arbitrary: ix g)
  case 0
  then have "unat ix = unat z" by (simp add: word_le_nat_alt)
  then have "\<not> ix < z" by (simp add: word_less_nat_alt)
  then show ?case by (subst Xoshiro128PP_discard_loop.simps) simp
next
  case (Suc n)
  then have lt: "ix < z" by (simp add: word_less_nat_alt)
  then have s: "unat (ix + 1) = Suc (unat ix)" by (rule word_succ_unat)
  with Suc.prems have n: "unat z - unat (ix + 1) = n" by simp
  from lt s have le: "ix + 1 \<le> z" by (simp add: word_le_nat_alt word_less_nat_alt)
  obtain r g1 where c: "Xoshiro128PP_call g = Some (r, g1)"
    by (simp add: Xoshiro128PP_call_eq)
  obtain rs g2 where cs: "Xoshiro128PP_calls n g1 = Some (rs, g2)"
    using Xoshiro128PP_calls_Some by blast
  have "Xoshiro128PP_discard_loop ix z g = Xoshiro128PP_discard_loop (ix + 1) z g1"
    using lt c by (subst Xoshiro128PP_discard_loop.simps) simp
  also have "\<dots> = map_option snd (Xoshiro128PP_calls n g1)"
    using n le by (rule Suc.IH)
  finally show ?case using c cs by simp
qed

lemma Xoshiro128PP_discard_calls:
  "Xoshiro128PP_discard z g = map_option snd (Xoshiro128PP_calls (unat z) g)"
  unfolding Xoshiro128PP_discard_def
  by (rule Xoshiro128PP_discard_loop_calls) simp_all

text \<open>
  C7. For every state and every \<open>n\<close>, \<open>discard(n)\<close> followed by \<open>operator()\<close> returns
  the last of the results of \<open>n + 1\<close> successive calls of \<open>operator()\<close> from the same
  state and leaves the same final state; both always return; \<open>discard(0)\<close> leaves the
  state as it is. The same for \<open>Xoshiro128PP\<close>.
\<close>

theorem discard_then_call:
  "Xoshiro256PP_discard z g \<bind> Xoshiro256PP_call =
     map_option (\<lambda>(rs, g'). (last rs, g')) (Xoshiro256PP_calls (Suc (unat z)) g) \<and>
   (\<exists>g1 r g2. Xoshiro256PP_discard z g = Some g1 \<and> Xoshiro256PP_call g1 = Some (r, g2)) \<and>
   Xoshiro256PP_discard 0 g = Some g \<and>
   Xoshiro128PP_discard z h \<bind> Xoshiro128PP_call =
     map_option (\<lambda>(rs, h'). (last rs, h')) (Xoshiro128PP_calls (Suc (unat z)) h) \<and>
   (\<exists>h1 r h2. Xoshiro128PP_discard z h = Some h1 \<and> Xoshiro128PP_call h1 = Some (r, h2)) \<and>
   Xoshiro128PP_discard 0 h = Some h"
proof -
  obtain rs g1 where cs: "Xoshiro256PP_calls (unat z) g = Some (rs, g1)"
    using Xoshiro256PP_calls_Some by blast
  obtain r g2 where c: "Xoshiro256PP_call g1 = Some (r, g2)"
    by (simp add: Xoshiro256PP_call_eq)
  obtain qs h1 where ds: "Xoshiro128PP_calls (unat z) h = Some (qs, h1)"
    using Xoshiro128PP_calls_Some by blast
  obtain q h2 where d: "Xoshiro128PP_call h1 = Some (q, h2)"
    by (simp add: Xoshiro128PP_call_eq)
  have "Xoshiro256PP_discard z g \<bind> Xoshiro256PP_call =
     map_option (\<lambda>(rs, g'). (last rs, g')) (Xoshiro256PP_calls (Suc (unat z)) g)"
    using Xoshiro256PP_calls_snoc [OF cs c] by (simp add: Xoshiro256PP_discard_calls cs c)
  moreover have "\<exists>g1 r g2. Xoshiro256PP_discard z g = Some g1 \<and> Xoshiro256PP_call g1 = Some (r, g2)"
    by (simp add: Xoshiro256PP_discard_calls cs c)
  moreover have "Xoshiro256PP_discard 0 g = Some g"
    by (simp add: Xoshiro256PP_discard_calls)
  moreover have "Xoshiro128PP_discard z h \<bind> Xoshiro128PP_call =
     map_option (\<lambda>(rs, h'). (last rs, h')) (Xoshiro128PP_calls (Suc (unat z)) h)"
    using Xoshiro128PP_calls_snoc [OF ds d] by (simp add: Xoshiro128PP_discard_calls ds d)
  moreover have "\<exists>h1 r h2. Xoshiro128PP_discard z h = Some h1 \<and> Xoshiro128PP_call h1 = Some (r, h2)"
    by (simp add: Xoshiro128PP_discard_calls ds d)
  moreover have "Xoshiro128PP_discard 0 h = Some h"
    by (simp add: Xoshiro128PP_discard_calls)
  ultimately show ?thesis by (intro conjI)
qed

section \<open>Bytes of words\<close>

text \<open>
  Byte \<open>i\<close> of \<open>le_bytes\<close> is bits \<open>8 i\<close> to \<open>8 i + 7\<close> of the word, and bit \<open>k\<close> of
  \<open>le_word\<close> is bit \<open>k mod 8\<close> of byte \<open>k div 8\<close>; so writing a word to bytes and
  reading it back gives the word, in either byte order, and so does the other way round.
\<close>

lemma length_le_bytes [simp]: "length (le_bytes n w) = n"
  by (induction n arbitrary: w) simp_all

lemma length_bytes_of [simp]: "length (bytes_of e n w) = n"
  by (cases e) (simp_all add: bytes_of_def)

lemma nth_le_bytes: "i < n \<Longrightarrow> le_bytes n w ! i = ucast (drop_bit (8 * i) w)"
proof (induction n arbitrary: w i)
  case 0
  then show ?case by simp
next
  case (Suc n)
  show ?case
  proof (cases i)
    case 0
    then show ?thesis by simp
  next
    case (Suc j)
    with Suc.prems have "j < n" by simp
    then have "le_bytes n (drop_bit 8 w) ! j = ucast (drop_bit (8 * j) (drop_bit 8 w))"
      by (rule Suc.IH)
    with Suc show ?thesis by (simp add: ac_simps)
  qed
qed

lemma bit_le_word:
  "bit (le_word bs :: 'a::len word) k \<longleftrightarrow>
     k < LENGTH('a) \<and> k < 8 * length bs \<and> bit (bs ! (k div 8)) (k mod 8)"
proof (induction bs arbitrary: k)
  case Nil
  show ?case by simp
next
  case (Cons b bs)
  show ?case
  proof (cases "k < 8")
    case True
    then show ?thesis by (auto simp add: bit_simps dest: bit_imp_le_length)
  next
    case False
    then obtain j where k: "k = 8 + j" by (metis le_add_diff_inverse not_less)
    then have "k div 8 = Suc (j div 8)" "k mod 8 = j mod 8" by simp_all
    with k show ?thesis by (auto simp add: bit_simps Cons.IH dest: bit_imp_le_length)
  qed
qed

lemma le_word_le_bytes:
  "(le_word (le_bytes n (w :: 'a::len word)) :: 'b::len word) = ucast (take_bit (8 * n) w)"
proof (rule bit_word_eqI)
  fix k assume "k < LENGTH('b)"
  have "8 * (k div 8) + k mod 8 = k" by simp
  then show "bit (le_word (le_bytes n w) :: 'b word) k = bit (ucast (take_bit (8 * n) w) :: 'b word) k"
    by (auto simp add: bit_le_word nth_le_bytes bit_simps less_mult_imp_div_less
          dest: bit_imp_le_length)
qed


lemma take_le_bytes: "k \<le> n \<Longrightarrow> take k (le_bytes n w) = le_bytes k w"
  by (rule nth_equalityI) (simp_all add: nth_le_bytes)

lemma drop_le_bytes: "drop k (le_bytes n w) = le_bytes (n - k) (drop_bit (8 * k) w)"
  by (rule nth_equalityI) (simp_all add: nth_le_bytes distrib_left ac_simps)

lemma word_of_bytes_of:
  fixes w :: "'a::len word"
  assumes "LENGTH('a) \<le> 8 * n"
  shows "word_of e (bytes_of e n w) = w"
proof -
  from assms have "take_bit (8 * n) w = w" by (simp add: take_bit_word_beyond_length_eq)
  then show ?thesis
    by (cases e) (simp_all add: word_of_def bytes_of_def le_word_le_bytes)
qed

lemma bytes_of_inj:
  fixes v w :: "'a::len word"
  assumes "LENGTH('a) \<le> 8 * n" "bytes_of e n v = bytes_of e n w"
  shows "v = w"
proof -
  have "v = word_of e (bytes_of e n v)" by (simp only: word_of_bytes_of [OF assms(1)])
  also have "\<dots> = word_of e (bytes_of e n w)" by (simp only: assms(2))
  also have "\<dots> = w" by (rule word_of_bytes_of [OF assms(1)])
  finally show ?thesis .
qed

lemma le_word_append:
  "(le_word (xs @ ys) :: 'a::len word) = le_word xs OR push_bit (8 * length xs) (le_word ys)"
  by (induction xs) (simp_all add: ac_simps push_bit_add)

lemma le_bytes_le_word:
  assumes "length bs = n" "8 * n \<le> LENGTH('a::len)"
  shows "le_bytes n (le_word bs :: 'a word) = bs"
proof (rule nth_equalityI)
  show "length (le_bytes n (le_word bs :: 'a word)) = length bs" using assms by simp
next
  fix i assume "i < length (le_bytes n (le_word bs :: 'a word))"
  then have i: "i < n" by simp
  have "(ucast (drop_bit (8 * i) (le_word bs :: 'a word)) :: byte) = bs ! i"
  proof (rule bit_word_eqI)
    fix j assume "j < LENGTH(8)"
    then have j: "j < 8" by simp
    then have dm: "(8 * i + j) div 8 = i" "(8 * i + j) mod 8 = j" by simp_all
    from i j assms have "8 * i + j < LENGTH('a)" "8 * i + j < 8 * length bs" by simp_all
    with j dm show "bit (ucast (drop_bit (8 * i) (le_word bs :: 'a word)) :: byte) j = bit (bs ! i) j"
      by (simp add: bit_simps bit_le_word)
  qed
  with i show "le_bytes n (le_word bs :: 'a word) ! i = bs ! i" by (simp add: nth_le_bytes)
qed

lemma bytes_of_word_of:
  assumes "length bs = n" "8 * n \<le> LENGTH('a::len)"
  shows "bytes_of e n (word_of e bs :: 'a word) = bs"
  using assms by (cases e) (simp_all add: bytes_of_def word_of_def le_bytes_le_word)

lemma memcmp_eq_0_iff: "length xs = length ys \<Longrightarrow> memcmp xs ys = 0 \<longleftrightarrow> xs = ys"
proof (induction xs ys rule: memcmp.induct)
  case (1 a as b bs)
  then show ?case by auto
qed simp_all

section \<open>Seeding \<open>Xoshiro128PP\<close>\<close>

text \<open>
  The first four bytes of a 64-bit word are its low half on a little-endian host and its
  high half on a big-endian one; the last four bytes are the other half.
\<close>

lemma extract_32bits_from64_left_eq:
  "extract_32bits_from64_left e x = (case e of Little \<Rightarrow> ucast x | Big \<Rightarrow> ucast (drop_bit 32 x))"
proof (cases e)
  case Little
  show ?thesis
    by (simp add: Little extract_32bits_from64_left_def word_of_def bytes_of_def
        take_le_bytes le_word_le_bytes) (rule bit_word_eqI, simp add: bit_simps)
next
  case Big
  have "rev (take 4 (rev (le_bytes 8 x))) = drop 4 (le_bytes 8 x)"
    by (simp add: rev_take)
  then show ?thesis
    by (simp add: Big extract_32bits_from64_left_def word_of_def bytes_of_def
        drop_le_bytes le_word_le_bytes) (rule bit_word_eqI, simp add: bit_simps)
qed

lemma extract_32bits_from64_right_eq:
  "extract_32bits_from64_right e x = (case e of Little \<Rightarrow> ucast (drop_bit 32 x) | Big \<Rightarrow> ucast x)"
proof (cases e)
  case Little
  show ?thesis
    by (simp add: Little extract_32bits_from64_right_def word_of_def bytes_of_def
        drop_le_bytes le_word_le_bytes) (rule bit_word_eqI, simp add: bit_simps)
next
  case Big
  have "rev (take 4 (drop 4 (rev (le_bytes 8 x)))) = take 4 (le_bytes 8 x)"
    by (simp add: rev_take rev_drop)
  then show ?thesis
    by (simp add: Big extract_32bits_from64_right_def word_of_def bytes_of_def
        take_le_bytes le_word_le_bytes) (rule bit_word_eqI, simp add: bit_simps)
qed

lemma splitmix64_0: "splitmix64 0 = 0xe220a8397b1dcdaf"
  by (simp add: splitmix64_def)

lemma Xoshiro128PP_seed64_eq:
  "Xoshiro128PP_seed64 e s g =
     (let t1 = splitmix64 s; t2 = splitmix64 t1
      in case e of
           Little \<Rightarrow> \<lparr>state0 = expand32 (lowHalf t1), state1 = expand32 (highHalf t1),
                       state2 = expand32 (lowHalf t2), state3 = expand32 (highHalf t2)\<rparr>
         | Big \<Rightarrow> \<lparr>state0 = expand32 (highHalf t1), state1 = expand32 (lowHalf t1),
                    state2 = expand32 (highHalf t2), state3 = expand32 (lowHalf t2)\<rparr>)"
  by (cases g; cases e)
     (simp_all add: Xoshiro128PP_seed64_def extract_32bits_from64_left_eq
        extract_32bits_from64_right_eq expand32_def highHalf_def lowHalf_def Let_def)

text \<open>
  C2. The claim: for every 64-bit \<open>s\<close>, \<open>seed(s)\<close> of \<open>Xoshiro128PP\<close> sets \<open>state[0]\<close>
  and \<open>state[2]\<close> from the high halves of \<open>t1 = expand(s)\<close> and \<open>t2 = expand(t1)\<close>, and
  \<open>state[1]\<close> and \<open>state[3]\<close> from the low halves. On a little-endian host the code
  does the opposite; at \<open>s = 0\<close> it sets \<open>state[0]\<close> to 1653378023 where the claim gives
  426665300.
\<close>

theorem seed64_little_endian_counterexample:
  "Xoshiro128PP_seed64 Little 0 Xoshiro128PP_default \<noteq> claimed_seed64 0"
proof -
  have "state0 (Xoshiro128PP_seed64 Little 0 Xoshiro128PP_default) \<noteq> state0 (claimed_seed64 0)"
    by (simp add: Xoshiro128PP_seed64_eq claimed_seed64_def splitmix64_0 expand32_def
        lowHalf_def highHalf_def) (simp add: splitmix64_def)
  then show ?thesis by auto
qed

text \<open>
  C2, as the code has it: \<open>extract_32bits_from64_left\<close> is the half that comes first in
  memory. On a big-endian host the state is the one the claim gives; on a little-endian
  host \<open>state[0]\<close> and \<open>state[2]\<close> come from the low halves of \<open>t1\<close> and \<open>t2\<close>, and
  \<open>state[1]\<close> and \<open>state[3]\<close> from the high halves.
\<close>

theorem seed64_halves_by_byte_order:
  "Xoshiro128PP_seed64 Big s g = claimed_seed64 s \<and>
   Xoshiro128PP_seed64 Little s g =
     (let t1 = splitmix64 s; t2 = splitmix64 t1
      in \<lparr>state0 = expand32 (lowHalf t1), state1 = expand32 (highHalf t1),
          state2 = expand32 (lowHalf t2), state3 = expand32 (highHalf t2)\<rparr>)"
  by (simp add: Xoshiro128PP_seed64_eq claimed_seed64_def)

text \<open>
  The default state of \<open>Xoshiro128PP\<close> is the first two default words of \<open>Xoshiro256PP\<close>
  cut in halves by the two helpers on a little-endian host, low half first.
\<close>

lemma Xoshiro128PP_default_layout:
  "Xoshiro128PP_default =
     \<lparr>state0 = extract_32bits_from64_left Little (state0 Xoshiro256PP_default),
      state1 = extract_32bits_from64_right Little (state0 Xoshiro256PP_default),
      state2 = extract_32bits_from64_left Little (state1 Xoshiro256PP_default),
      state3 = extract_32bits_from64_right Little (state1 Xoshiro256PP_default)\<rparr>"
  by (simp add: Xoshiro128PP_default_def Xoshiro256PP_default_def
        extract_32bits_from64_left_eq extract_32bits_from64_right_eq)

text \<open>
  Had the two helpers written to the caller's variable, one after the other, \<open>temp\<close>
  would hold \<open>seed\<close> in both halves, whatever it held before.
\<close>

lemma assign_both_halves:
  "assign_32bits_to64_right e (assign_32bits_to64_left e temp seed) seed =
     push_bit 32 (ucast seed) OR ucast seed"
proof -
  have "assign_32bits_to64_right e (assign_32bits_to64_left e temp seed) seed =
        (word_of e (bytes_of e 4 seed @ bytes_of e 4 seed) :: u64)"
    by (simp add: assign_32bits_to64_right_def assign_32bits_to64_left_def bytes_of_word_of)
  also have "\<dots> = push_bit 32 (ucast seed) OR ucast seed"
    by (cases e)
       (simp_all add: word_of_def bytes_of_def le_word_append le_word_le_bytes
          take_bit_word_beyond_length_eq ac_simps)
  finally show ?thesis .
qed

text \<open>
  C3. The claim: \<open>seed(s)\<close> with a 32-bit \<open>s\<close> gives the state that the 64-bit seeding
  gives for \<open>(s << 32) | s\<close>. In the code the helpers work on copies, so the state is
  the one the 64-bit seeding gives for whatever \<open>temp\<close> held, and does not depend on
  \<open>s\<close>: with \<open>temp\<close> holding 0 and \<open>s = 1\<close> it is not the state for \<open>0x0000000100000001\<close>.
\<close>

theorem seed32_ignores_its_argument:
  "Xoshiro128PP_seed32 e temp seed g = Xoshiro128PP_seed64 e temp g \<and>
   Xoshiro128PP_seed32 Little 0 1 Xoshiro128PP_default \<noteq>
     Xoshiro128PP_seed64 Little (push_bit 32 (ucast (1 :: u32)) OR ucast (1 :: u32)) Xoshiro128PP_default"
proof -
  have "state0 (Xoshiro128PP_seed64 Little 0 Xoshiro128PP_default) \<noteq>
        state0 (Xoshiro128PP_seed64 Little (push_bit 32 (ucast (1 :: u32)) OR ucast (1 :: u32))
                  Xoshiro128PP_default)"
    by (simp add: Xoshiro128PP_seed64_eq splitmix64_0 expand32_def lowHalf_def)
       (simp add: splitmix64_def)
  then show ?thesis by (auto simp add: Xoshiro128PP_seed32_def)
qed

section \<open>The comparison operators\<close>

lemma Xoshiro256PP_state_bytes_inj:
  assumes "Xoshiro256PP_state_bytes e g = Xoshiro256PP_state_bytes e h"
  shows "g = h"
proof -
  from assms have
    "bytes_of e 8 (state0 g) = bytes_of e 8 (state0 h)"
    "bytes_of e 8 (state1 g) = bytes_of e 8 (state1 h)"
    "bytes_of e 8 (state2 g) = bytes_of e 8 (state2 h)"
    "bytes_of e 8 (state3 g) = bytes_of e 8 (state3 h)"
    by (simp_all add: Xoshiro256PP_state_bytes_def)
  then have "state0 g = state0 h" "state1 g = state1 h" "state2 g = state2 h" "state3 g = state3 h"
    by (auto intro: bytes_of_inj [where n = 8 and e = e])
  then show ?thesis by simp
qed

lemma Xoshiro128PP_state_bytes_inj:
  assumes "Xoshiro128PP_state_bytes e g = Xoshiro128PP_state_bytes e h"
  shows "g = h"
proof -
  from assms have
    "bytes_of e 4 (state0 g) = bytes_of e 4 (state0 h)"
    "bytes_of e 4 (state1 g) = bytes_of e 4 (state1 h)"
    "bytes_of e 4 (state2 g) = bytes_of e 4 (state2 h)"
    "bytes_of e 4 (state3 g) = bytes_of e 4 (state3 h)"
    by (simp_all add: Xoshiro128PP_state_bytes_def)
  then have "state0 g = state0 h" "state1 g = state1 h" "state2 g = state2 h" "state3 g = state3 h"
    by (auto intro: bytes_of_inj [where n = 4 and e = e])
  then show ?thesis by simp
qed

lemma length_state_bytes [simp]:
  "length (Xoshiro256PP_state_bytes e g) = 32" "length (Xoshiro128PP_state_bytes e h) = 16"
  by (simp_all add: Xoshiro256PP_state_bytes_def Xoshiro128PP_state_bytes_def)

text \<open>
  C4. The claim: \<open>a == b\<close> is true exactly when the four words of \<open>a\<close> equal those of
  \<open>b\<close>, and \<open>!=\<close> is its negation. The code returns the result of \<open>memcmp\<close> as a
  \<open>bool\<close>: \<open>==\<close> is true exactly when the states differ, and \<open>!=\<close> exactly when they
  are equal, for both classes and either byte order. In particular \<open>a == a\<close> is false.
\<close>

theorem equality_operators_inverted:
  "(Xoshiro256PP_eq e a b \<longleftrightarrow> a \<noteq> b) \<and> (Xoshiro256PP_ne e a b \<longleftrightarrow> a = b) \<and>
   (Xoshiro128PP_eq e c d \<longleftrightarrow> c \<noteq> d) \<and> (Xoshiro128PP_ne e c d \<longleftrightarrow> c = d)"
  by (auto simp add: Xoshiro256PP_eq_def Xoshiro256PP_ne_def Xoshiro128PP_eq_def
        Xoshiro128PP_ne_def memcmp_eq_0_iff
        dest: Xoshiro256PP_state_bytes_inj Xoshiro128PP_state_bytes_inj)

section \<open>The stream operators\<close>

text \<open>
  \<open>operator>>\<close> on a stream that holds four blocks of the size of a word with one
  character after each of the first three: the words are the blocks, the three characters
  are dropped whatever they are, and what follows stays in the stream.
\<close>

lemma read_word_whole:
  fixes w old :: "'a::len word"
  assumes "igood ist" "pending ist = bs @ rest" "length bs = n"
  shows "read_word e n old ist = (word_of e bs, ist\<lparr>pending := rest\<rparr>)"
  using assms by (simp add: read_word_def istream_read_def)

lemma istream_get_one:
  assumes "igood ist" "pending ist = c # rest"
  shows "istream_get ist = ist\<lparr>pending := rest\<rparr>"
  using assms by (simp add: istream_get_def)

lemma Xoshiro256PP_read_blocks:
  assumes "length b0 = 8" "length b1 = 8" "length b2 = 8" "length b3 = 8"
  shows "Xoshiro256PP_read e (istream_of (b0 @ x # b1 @ y # b2 @ z # b3 @ rest)) g =
           (istream_of rest,
            \<lparr>state0 = word_of e b0, state1 = word_of e b1,
             state2 = word_of e b2, state3 = word_of e b3\<rparr>)"
  using assms
  by (cases g)
     (simp add: Xoshiro256PP_read_def istream_of_def read_word_def istream_read_def istream_get_def)

lemma Xoshiro128PP_read_blocks:
  assumes "length b0 = 4" "length b1 = 4" "length b2 = 4" "length b3 = 4"
  shows "Xoshiro128PP_read e (istream_of (b0 @ x # b1 @ y # b2 @ z # b3 @ rest)) g =
           (istream_of rest,
            \<lparr>state0 = word_of e b0, state1 = word_of e b1,
             state2 = word_of e b2, state3 = word_of e b3\<rparr>)"
  using assms
  by (cases g)
     (simp add: Xoshiro128PP_read_def istream_of_def read_word_def istream_read_def istream_get_def)

lemma Xoshiro256PP_written:
  "Xoshiro256PP_write e ostream_empty g =
     \<lparr>written = bytes_of e 8 (state0 g) @ 0x20 # bytes_of e 8 (state1 g) @ 0x20 #
                 bytes_of e 8 (state2 g) @ 0x20 # bytes_of e 8 (state3 g),
      ogood = True\<rparr>"
  by (simp add: Xoshiro256PP_write_def ostream_empty_def ostream_write_def ostream_put_def)

lemma Xoshiro128PP_written:
  "Xoshiro128PP_write e ostream_empty g =
     \<lparr>written = bytes_of e 4 (state0 g) @ 0x20 # bytes_of e 4 (state1 g) @ 0x20 #
                 bytes_of e 4 (state2 g) @ 0x20 # bytes_of e 4 (state3 g),
      ogood = True\<rparr>"
  by (simp add: Xoshiro128PP_write_def ostream_empty_def ostream_write_def ostream_put_def)

text \<open>
  C5. For every state, \<open>operator<<\<close> on a fresh stream followed by \<open>operator>>\<close> on
  the characters written gives back the four words, whatever the target held before, and
  leaves the input stream good and empty; the restored generator then produces the same
  results and states as the original, for any number of calls. For both classes and
  either byte order, the same on both sides.
\<close>

theorem serialize_roundtrip:
  "Xoshiro256PP_read e (istream_of (written (Xoshiro256PP_write e ostream_empty g))) g0 =
     (\<lparr>pending = [], igood = True\<rparr>, g) \<and>
   Xoshiro256PP_calls n
     (snd (Xoshiro256PP_read e (istream_of (written (Xoshiro256PP_write e ostream_empty g))) g0)) =
     Xoshiro256PP_calls n g \<and>
   Xoshiro128PP_read e (istream_of (written (Xoshiro128PP_write e ostream_empty h))) h0 =
     (\<lparr>pending = [], igood = True\<rparr>, h) \<and>
   Xoshiro128PP_calls n
     (snd (Xoshiro128PP_read e (istream_of (written (Xoshiro128PP_write e ostream_empty h))) h0)) =
     Xoshiro128PP_calls n h"
proof -
  have a: "Xoshiro256PP_read e (istream_of (written (Xoshiro256PP_write e ostream_empty g))) g0 =
     (\<lparr>pending = [], igood = True\<rparr>, g)"
    using Xoshiro256PP_read_blocks [of "bytes_of e 8 (state0 g)" "bytes_of e 8 (state1 g)"
        "bytes_of e 8 (state2 g)" "bytes_of e 8 (state3 g)" e "0x20" "0x20" "0x20" "[]" g0]
    by (simp add: Xoshiro256PP_written word_of_bytes_of istream_of_def)
  have b: "Xoshiro128PP_read e (istream_of (written (Xoshiro128PP_write e ostream_empty h))) h0 =
     (\<lparr>pending = [], igood = True\<rparr>, h)"
    using Xoshiro128PP_read_blocks [of "bytes_of e 4 (state0 h)" "bytes_of e 4 (state1 h)"
        "bytes_of e 4 (state2 h)" "bytes_of e 4 (state3 h)" e "0x20" "0x20" "0x20" "[]" h0]
    by (simp add: Xoshiro128PP_written word_of_bytes_of istream_of_def)
  show ?thesis by (simp add: a b)
qed

text \<open>
  C8. For every state and every choice of the three characters at the separator
  positions of the serialised form (8, 17 and 26 for \<open>Xoshiro256PP\<close>; 4, 9 and 14 for
  \<open>Xoshiro128PP\<close>), \<open>operator>>\<close> leaves the stream good and produces the state that
  the four blocks encode.
\<close>

theorem separators_not_checked:
  "Xoshiro256PP_read e
     (istream_of ((written (Xoshiro256PP_write e ostream_empty g))[8 := x, 17 := y, 26 := z])) g0 =
     (\<lparr>pending = [], igood = True\<rparr>, g) \<and>
   Xoshiro128PP_read e
     (istream_of ((written (Xoshiro128PP_write e ostream_empty h))[4 := x, 9 := y, 14 := z])) h0 =
     (\<lparr>pending = [], igood = True\<rparr>, h)"
proof -
  have a: "(written (Xoshiro256PP_write e ostream_empty g))[8 := x, 17 := y, 26 := z] =
      bytes_of e 8 (state0 g) @ x # bytes_of e 8 (state1 g) @ y #
      bytes_of e 8 (state2 g) @ z # bytes_of e 8 (state3 g) @ []"
    by (simp add: Xoshiro256PP_written list_update_append)
  have b: "(written (Xoshiro128PP_write e ostream_empty h))[4 := x, 9 := y, 14 := z] =
      bytes_of e 4 (state0 h) @ x # bytes_of e 4 (state1 h) @ y #
      bytes_of e 4 (state2 h) @ z # bytes_of e 4 (state3 h) @ []"
    by (simp add: Xoshiro128PP_written list_update_append)
  show ?thesis
    using Xoshiro256PP_read_blocks [of "bytes_of e 8 (state0 g)" "bytes_of e 8 (state1 g)"
        "bytes_of e 8 (state2 g)" "bytes_of e 8 (state3 g)" e x y z "[]" g0]
      Xoshiro128PP_read_blocks [of "bytes_of e 4 (state0 h)" "bytes_of e 4 (state1 h)"
        "bytes_of e 4 (state2 h)" "bytes_of e 4 (state3 h)" e x y z "[]" h0]
    by (simp add: a b word_of_bytes_of istream_of_def)
qed

section \<open>Seeding and the zero state\<close>

text \<open>
  \<open>Xoshiro256PP::seed\<close> never gives the zero state: \<open>state[1]\<close> is \<open>splitmix64\<close> of
  \<open>state[0]\<close>, and \<open>splitmix64(0)\<close> is not 0. The two default states are not zero.
  For \<open>Xoshiro128PP\<close> the four words are zero exactly when both halves of \<open>t1\<close> and of
  \<open>t2 = splitmix64(t1)\<close> are zeros of \<open>expand32\<close>; \<open>0x4E37A053\<close> is such a zero.
\<close>

lemma Xoshiro256PP_seed_not_zero: "Xoshiro256PP_seed s g \<noteq> Xoshiro256PP_zero"
proof
  assume z: "Xoshiro256PP_seed s g = Xoshiro256PP_zero"
  have "state1 (Xoshiro256PP_seed s g) = splitmix64 (state0 (Xoshiro256PP_seed s g))"
    by (simp add: Xoshiro256PP_seed_def)
  with z show False by (simp add: Xoshiro256PP_zero_def splitmix64_0)
qed

lemma defaults_not_zero:
  "Xoshiro256PP_default \<noteq> Xoshiro256PP_zero" "Xoshiro128PP_default \<noteq> Xoshiro128PP_zero"
  by (simp_all add: Xoshiro256PP_default_def Xoshiro256PP_zero_def
        Xoshiro128PP_default_def Xoshiro128PP_zero_def)

lemma zero_block: "expand32 0x4E37A053 = 0"
  by (simp add: expand32_def splitmix64_def)

end
